theory Spec2Isabelle
  imports Complex_Main
begin

section \<open>Data model (app/models, app/config.py)\<close>

text \<open>
  The mileage-prediction and service-reminder engine of the CRM backend:
  \<^verbatim>\<open>app/services/mileage.py\<close> (class \<^verbatim>\<open>MileageService\<close>) and the daily job
  \<^verbatim>\<open>check_service_reminders\<close> of \<^verbatim>\<open>app/services/scheduler.py\<close>.

  Conventions of the embedding.
  \<^item> A table is the list of its rows in storage order; \<^verbatim>\<open>.first()\<close> is the first
    matching row of that list and \<^verbatim>\<open>.all()\<close> the matching rows in order.
  \<^item> A naive \<^verbatim>\<open>datetime\<close> is the integer number of microseconds since a fixed epoch
    (the resolution of Python's \<^verbatim>\<open>datetime\<close>), so \<^verbatim>\<open>timedelta.days\<close> is a floor
    division by the microseconds of a day.
  \<^item> Python's unbounded \<^verbatim>\<open>int\<close> is \<open>int\<close>. The quotient \<^verbatim>\<open>int / int\<close> and the product
    \<^verbatim>\<open>float * int\<close> are computed exactly, in \<open>rat\<close>: the rounding of the result to a
    binary double is not part of the model.
  \<^item> \<^verbatim>\<open>datetime.utcnow()\<close> is a parameter \<open>now\<close> of every operation that reads the clock:
    one reading for one run of an operation.
  \<^item> An exception is a value \<open>Inl e\<close> of the result type. \<open>SinkError\<close> stands for an
    exception raised inside the notification sink.
  \<^item> A column keeps its name, with the table in front where two tables have a column of
    that name; the primary key \<^verbatim>\<open>id\<close> of a table is its \<open>ident\<close>. Only the columns
    that the service reads or writes are kept.
\<close>

datatype error = IndexError | TypeError | ZeroDivisionError | AttributeError | IntegrityError
  | SinkError

datatype WorkOrderStatus = CREATED | DIAGNOSING | IN_PROGRESS | DONE

type_synonym datetime = int

record settings =
  MIN_VISITS_FOR_PREDICTION :: int
  SERVICE_REMINDER_DAYS_AHEAD :: int

definition default_settings :: settings where
  "default_settings = \<lparr>MIN_VISITS_FOR_PREDICTION = 2, SERVICE_REMINDER_DAYS_AHEAD = 14\<rparr>"

record Shop =
  shop_ident :: int
  is_active :: bool
  sms_enabled :: bool

record Customer =
  customer_ident :: int
  phone :: string

record Car =
  car_ident :: int
  car_shop_id :: int
  owner_id :: int
  current_mileage :: int
  service_interval_km :: int
  car_updated_at :: datetime

record WorkOrder =
  wo_ident :: int
  wo_car_id :: int
  wo_status :: WorkOrderStatus
  mileage_at_intake :: "int option"
  wo_created_at :: datetime

record ServiceReminder =
  reminder_ident :: int
  reminder_car_id :: int
  reminder_customer_id :: int
  predicted_mileage :: int
  service_due_mileage :: int
  reminder_sent :: bool
  reminder_sent_at :: "datetime option"
  reminder_created_at :: datetime

record db =
  shops :: "Shop list"
  customers :: "Customer list"
  cars :: "Car list"
  work_orders :: "WorkOrder list"
  service_reminders :: "ServiceReminder list"

definition microseconds_per_day :: int where
  "microseconds_per_day = 86400000000"

text \<open>\<^verbatim>\<open>timedelta(days=n)\<close> and \<^verbatim>\<open>(t1 - t0).days\<close>.\<close>

definition timedelta_days :: "int \<Rightarrow> int" where
  "timedelta_days n = n * microseconds_per_day"

definition days_between :: "datetime \<Rightarrow> datetime \<Rightarrow> int" where
  "days_between t0 t1 = (t1 - t0) div microseconds_per_day"

text \<open>Python's \<^verbatim>\<open>int(x)\<close> on a float rounds toward zero.\<close>

definition py_int :: "rat \<Rightarrow> int" where
  "py_int x = (if x < 0 then \<lceil>x\<rceil> else \<lfloor>x\<rfloor>)"

section \<open>MileageService: the read-only operations\<close>

text \<open>\<^verbatim>\<open>self.db.query(Car).filter(Car.id == car_id).first()\<close>\<close>

definition get_car :: "db \<Rightarrow> int \<Rightarrow> Car option" where
  "get_car d cid = find (\<lambda>c. car_ident c = cid) (cars d)"

text \<open>
  The query of \<^verbatim>\<open>calculate_average_km_per_day\<close>: the work orders of the car with status
  \<^verbatim>\<open>"done"\<close> (the value of \<^verbatim>\<open>WorkOrderStatus.DONE\<close>) and a mileage at intake, ordered by
  \<^verbatim>\<open>created_at\<close>. The order of rows with equal \<^verbatim>\<open>created_at\<close> is the storage order
  (a stable sort).
\<close>

definition done_work_orders_with_mileage :: "db \<Rightarrow> int \<Rightarrow> WorkOrder list" where
  "done_work_orders_with_mileage d cid =
     sort_key wo_created_at
       (filter (\<lambda>w. wo_car_id w = cid \<and> wo_status w = DONE \<and> mileage_at_intake w \<noteq> None)
          (work_orders d))"

text \<open>\<^verbatim>\<open>last_visit.mileage_at_intake - first_visit.mileage_at_intake\<close>; \<^verbatim>\<open>None\<close> raises.\<close>

definition mileage_sub :: "int option \<Rightarrow> int option \<Rightarrow> error + int" where
  "mileage_sub a b =
     (case a of None \<Rightarrow> Inl TypeError
      | Some x \<Rightarrow> (case b of None \<Rightarrow> Inl TypeError | Some y \<Rightarrow> Inr (x - y)))"

definition calculate_average_km_per_day :: "settings \<Rightarrow> db \<Rightarrow> int \<Rightarrow> error + rat option" where
  "calculate_average_km_per_day st d cid =
     (let wos = done_work_orders_with_mileage d cid in
      if int (length wos) < MIN_VISITS_FOR_PREDICTION st then Inr None
      else (case wos of
              [] \<Rightarrow> Inl IndexError
            | _ # _ \<Rightarrow>
                (let first_visit = hd wos;
                     last_visit = last wos
                 in (case mileage_sub (mileage_at_intake last_visit)
                            (mileage_at_intake first_visit) of
                       Inl e \<Rightarrow> Inl e
                     | Inr mileage_diff \<Rightarrow>
                         (let days_diff =
                                days_between (wo_created_at first_visit) (wo_created_at last_visit)
                          in if days_diff = 0 then Inr None
                             else Inr (Some (max 0 (of_int mileage_diff / of_int days_diff))))))))"

definition predict_mileage :: "settings \<Rightarrow> db \<Rightarrow> int \<Rightarrow> int \<Rightarrow> error + int option" where
  "predict_mileage st d cid days_ahead =
     (case get_car d cid of
        None \<Rightarrow> Inr None
      | Some car \<Rightarrow>
          (case calculate_average_km_per_day st d cid of
             Inl e \<Rightarrow> Inl e
           | Inr None \<Rightarrow> Inr None
           | Inr (Some avg_km_per_day) \<Rightarrow>
               Inr (Some (current_mileage car + py_int (avg_km_per_day * of_int days_ahead)))))"

definition needs_service_reminder ::
  "settings \<Rightarrow> db \<Rightarrow> int \<Rightarrow> error + (bool \<times> int option \<times> int option)" where
  "needs_service_reminder st d cid =
     (case get_car d cid of
        None \<Rightarrow> Inr (False, None, None)
      | Some car \<Rightarrow>
          (case predict_mileage st d cid (SERVICE_REMINDER_DAYS_AHEAD st) of
             Inl e \<Rightarrow> Inl e
           | Inr None \<Rightarrow> Inr (False, None, None)
           | Inr (Some predicted) \<Rightarrow>
               if service_interval_km car = 0 then Inl ZeroDivisionError
               else
                 (let last_service_mileage =
                        current_mileage car - (current_mileage car mod service_interval_km car);
                      service_due_mileage = last_service_mileage + service_interval_km car;
                      needs_reminder = (predicted \<ge> service_due_mileage)
                  in Inr (needs_reminder, Some predicted, Some service_due_mileage))))"

section \<open>MileageService: the sweep of one shop and the updates\<close>

text \<open>
  The first reminder of the car that was sent within the last 30 days
  (\<^verbatim>\<open>reminder_sent_at >= datetime.utcnow() - timedelta(days=30)\<close>; a row without a
  timestamp does not match), and the first unsent reminder of the car.
\<close>

definition recent_reminder :: "datetime \<Rightarrow> db \<Rightarrow> int \<Rightarrow> ServiceReminder option" where
  "recent_reminder now d cid =
     find (\<lambda>r. reminder_car_id r = cid \<and> reminder_sent r \<and>
                (case reminder_sent_at r of None \<Rightarrow> False
                 | Some t \<Rightarrow> t \<ge> now - timedelta_days 30))
       (service_reminders d)"

definition unsent_reminder :: "db \<Rightarrow> int \<Rightarrow> ServiceReminder option" where
  "unsent_reminder d cid =
     find (\<lambda>r. reminder_car_id r = cid \<and> \<not> reminder_sent r) (service_reminders d)"

text \<open>
  The primary key the database gives a new row of \<^verbatim>\<open>service_reminders\<close>: one more than
  the largest key in the table (rows are never deleted by this service).
\<close>

definition next_reminder_id :: "db \<Rightarrow> int" where
  "next_reminder_id d = fold max (map reminder_ident (service_reminders d)) 0 + 1"

text \<open>\<^verbatim>\<open>self.db.add(reminder); self.db.commit(); self.db.refresh(reminder)\<close>\<close>

definition add_reminder :: "datetime \<Rightarrow> db \<Rightarrow> Car \<Rightarrow> int \<Rightarrow> int \<Rightarrow> db \<times> int" where
  "add_reminder now d car predicted_km service_due_km =
     (let reminder = \<lparr>reminder_ident = next_reminder_id d,
                       reminder_car_id = car_ident car,
                       reminder_customer_id = owner_id car,
                       predicted_mileage = predicted_km,
                       service_due_mileage = service_due_km,
                       reminder_sent = False,
                       reminder_sent_at = None,
                       reminder_created_at = now\<rparr>
      in (d\<lparr>service_reminders := service_reminders d @ [reminder]\<rparr>, reminder_ident reminder))"

text \<open>The dictionary appended to \<^verbatim>\<open>cars_needing_reminders\<close>; \<^verbatim>\<open>car.owner\<close> is a lookup.\<close>

record reminder_item =
  item_car :: Car
  item_customer :: "Customer option"
  item_predicted_mileage :: "int option"
  item_service_due_mileage :: "int option"
  item_reminder_id :: int

definition car_owner :: "db \<Rightarrow> Car \<Rightarrow> Customer option" where
  "car_owner d car = find (\<lambda>c. customer_ident c = owner_id car) (customers d)"

text \<open>
  The loop body of \<^verbatim>\<open>check_all_cars_for_reminders\<close> from the call of
  \<^verbatim>\<open>needs_service_reminder\<close> on: the reminder is the unsent one of the car when there is
  one, else a new row. The result is the new store and the item, or nothing when the car
  needs no reminder.
\<close>

definition reminder_for_car ::
  "settings \<Rightarrow> datetime \<Rightarrow> db \<Rightarrow> Car \<Rightarrow> error + (db \<times> reminder_item option)" where
  "reminder_for_car st now d car =
     (case needs_service_reminder st d (car_ident car) of
        Inl e \<Rightarrow> Inl e
      | Inr (needs_reminder, predicted_km, service_due_km) \<Rightarrow>
          if needs_reminder then
            (case unsent_reminder d (car_ident car) of
               Some reminder \<Rightarrow>
                 Inr (d, Some \<lparr>item_car = car, item_customer = car_owner d car,
                               item_predicted_mileage = predicted_km,
                               item_service_due_mileage = service_due_km,
                               item_reminder_id = reminder_ident reminder\<rparr>)
             | None \<Rightarrow>
                 (case predicted_km of
                    None \<Rightarrow> Inl IntegrityError
                  | Some p \<Rightarrow>
                      (case service_due_km of
                         None \<Rightarrow> Inl IntegrityError
                       | Some s \<Rightarrow>
                           (let (d', rid) = add_reminder now d car p s
                            in Inr (d', Some \<lparr>item_car = car, item_customer = car_owner d' car,
                                              item_predicted_mileage = predicted_km,
                                              item_service_due_mileage = service_due_km,
                                              item_reminder_id = rid\<rparr>)))))
          else Inr (d, None))"

text \<open>
  The \<^verbatim>\<open>for car in cars\<close> loop. An exception leaves the loop; the rows committed before it
  stay in the store, and the list built so far is lost.
\<close>

fun sweep_cars ::
  "settings \<Rightarrow> datetime \<Rightarrow> db \<Rightarrow> Car list \<Rightarrow> db \<times> (error + reminder_item list)" where
  "sweep_cars st now d [] = (d, Inr [])"
| "sweep_cars st now d (car # rest) =
     (if recent_reminder now d (car_ident car) \<noteq> None then sweep_cars st now d rest
      else (case reminder_for_car st now d car of
              Inl e \<Rightarrow> (d, Inl e)
            | Inr (d', None) \<Rightarrow> sweep_cars st now d' rest
            | Inr (d', Some item) \<Rightarrow>
                (case sweep_cars st now d' rest of
                   (d'', Inl e) \<Rightarrow> (d'', Inl e)
                 | (d'', Inr items) \<Rightarrow> (d'', Inr (item # items)))))"

definition check_all_cars_for_reminders ::
  "settings \<Rightarrow> datetime \<Rightarrow> db \<Rightarrow> int \<Rightarrow> db \<times> (error + reminder_item list)" where
  "check_all_cars_for_reminders st now d shop_id =
     sweep_cars st now d
       (filter (\<lambda>c. car_shop_id c = shop_id \<and> service_interval_km c > 0) (cars d))"

text \<open>\<^verbatim>\<open>mark_reminder_sent\<close>: the first row with the id, when there is one.\<close>

fun mark_first :: "datetime \<Rightarrow> int \<Rightarrow> ServiceReminder list \<Rightarrow> ServiceReminder list" where
  "mark_first now rid [] = []"
| "mark_first now rid (r # rs) =
     (if reminder_ident r = rid
      then r\<lparr>reminder_sent := True, reminder_sent_at := Some now\<rparr> # rs
      else r # mark_first now rid rs)"

definition mark_reminder_sent :: "datetime \<Rightarrow> db \<Rightarrow> int \<Rightarrow> db" where
  "mark_reminder_sent now d reminder_id =
     d\<lparr>service_reminders := mark_first now reminder_id (service_reminders d)\<rparr>"



section \<open>The daily job (app/services/scheduler.py)\<close>

text \<open>
  \<^verbatim>\<open>send_service_reminder_sms\<close> is the notification sink: it answers \<^verbatim>\<open>True\<close> or \<^verbatim>\<open>False\<close>
  (it catches the gateway's own exception), or raises any other exception. The sink is a
  parameter; what it writes itself (the log of messages, the usage counter of the shop) is
  in columns outside this model. The job records, for every call of the sink that
  returned, the car and the answer.
\<close>

type_synonym sink = "reminder_item \<Rightarrow> error + bool"

text \<open>
  The \<^verbatim>\<open>for item in cars_needing_reminders\<close> loop. Reading \<^verbatim>\<open>customer.first_name\<close> of a
  missing owner raises.
\<close>

fun send_reminders ::
  "sink \<Rightarrow> datetime \<Rightarrow> db \<Rightarrow> reminder_item list \<Rightarrow> db \<times> (int \<times> bool) list \<times> error option" where
  "send_reminders snk now d [] = (d, [], None)"
| "send_reminders snk now d (item # rest) =
     (case item_customer item of
        None \<Rightarrow> (d, [], Some AttributeError)
      | Some customer \<Rightarrow>
          (case snk item of
             Inl e \<Rightarrow> (d, [], Some e)
           | Inr success \<Rightarrow>
               (let d' = (if success then mark_reminder_sent now d (item_reminder_id item) else d);
                    (d'', sent, err) = send_reminders snk now d' rest
                in (d'', (car_ident (item_car item), success) # sent, err))))"

text \<open>The \<^verbatim>\<open>for shop in shops\<close> loop inside the one \<^verbatim>\<open>try\<close> of the job.\<close>

fun check_shops ::
  "settings \<Rightarrow> sink \<Rightarrow> datetime \<Rightarrow> db \<Rightarrow> Shop list \<Rightarrow> db \<times> (int \<times> bool) list \<times> error option" where
  "check_shops st snk now d [] = (d, [], None)"
| "check_shops st snk now d (shop # rest) =
     (case check_all_cars_for_reminders st now d (shop_ident shop) of
        (d1, Inl e) \<Rightarrow> (d1, [], Some e)
      | (d1, Inr cars_needing_reminders) \<Rightarrow>
          (case send_reminders snk now d1 cars_needing_reminders of
             (d2, sent, Some e) \<Rightarrow> (d2, sent, Some e)
           | (d2, sent, None) \<Rightarrow>
               (let (d3, sent', err) = check_shops st snk now d2 rest
                in (d3, sent @ sent', err))))"

text \<open>
  \<^verbatim>\<open>check_service_reminders\<close>: the exception, if any, is caught and logged by the handler of
  the job, which then ends.
\<close>

definition check_service_reminders ::
  "settings \<Rightarrow> sink \<Rightarrow> datetime \<Rightarrow> db \<Rightarrow> db \<times> (int \<times> bool) list \<times> error option" where
  "check_service_reminders st snk now d =
     check_shops st snk now d (filter (\<lambda>s. is_active s \<and> sms_enabled s) (shops d))"

section \<open>Notions used in the statements\<close>

text \<open>The unsent reminders of a car, and the invariant of the reminder table.\<close>

definition unsent_for :: "db \<Rightarrow> int \<Rightarrow> ServiceReminder list" where
  "unsent_for d cid =
     filter (\<lambda>r. reminder_car_id r = cid \<and> \<not> reminder_sent r) (service_reminders d)"

definition at_most_one_unsent :: "db \<Rightarrow> bool" where
  "at_most_one_unsent d =
     (\<forall>cid \<in> set (map reminder_car_id (service_reminders d)). length (unsent_for d cid) \<le> 1)"

text \<open>
  A history of the reminder table: sweeps of a shop and calls of \<^verbatim>\<open>mark_reminder_sent\<close>,
  each at its own time, in any order.
\<close>

datatype operation = Sweep datetime int | MarkSent datetime int

fun apply_operation :: "settings \<Rightarrow> db \<Rightarrow> operation \<Rightarrow> db" where
  "apply_operation st d (Sweep now shop_id) = fst (check_all_cars_for_reminders st now d shop_id)"
| "apply_operation st d (MarkSent now reminder_id) = mark_reminder_sent now d reminder_id"

definition apply_operations :: "settings \<Rightarrow> db \<Rightarrow> operation list \<Rightarrow> db" where
  "apply_operations st d ops = foldl (apply_operation st) d ops"

text \<open>
  A car has been notified since a time: it has a sent reminder with a sent time not before
  it. An operation that marks a reminder does so not before a time.
\<close>

definition notified_since :: "datetime \<Rightarrow> db \<Rightarrow> int \<Rightarrow> bool" where
  "notified_since t0 d cid =
     (\<exists>r \<in> set (service_reminders d). reminder_car_id r = cid \<and> reminder_sent r \<and>
        (case reminder_sent_at r of None \<Rightarrow> False | Some t \<Rightarrow> t0 \<le> t))"

fun marked_not_before :: "datetime \<Rightarrow> operation \<Rightarrow> bool" where
  "marked_not_before t0 (Sweep now shop_id) = True"
| "marked_not_before t0 (MarkSent now reminder_id) = (t0 \<le> now)"

section \<open>Example stores\<close>

text \<open>
  One shop, one customer, one car with a service interval of 10000 and two completed visits
  100 days apart (70000 and 80000 at intake, the later one stored first): 100 a day.
\<close>

definition wo_day0 :: WorkOrder where
  "wo_day0 = \<lparr>wo_ident = 1, wo_car_id = 1, wo_status = DONE, mileage_at_intake = Some 70000,
              wo_created_at = 0\<rparr>"

definition wo_day100 :: WorkOrder where
  "wo_day100 = \<lparr>wo_ident = 2, wo_car_id = 1, wo_status = DONE, mileage_at_intake = Some 80000,
                wo_created_at = 100 * 86400000000\<rparr>"

definition car_at :: "int \<Rightarrow> Car" where
  "car_at km = \<lparr>car_ident = 1, car_shop_id = 1, owner_id = 1, current_mileage = km,
                service_interval_km = 10000, car_updated_at = 0\<rparr>"

definition the_shop :: Shop where
  "the_shop = \<lparr>shop_ident = 1, is_active = True, sms_enabled = True\<rparr>"

definition the_owner :: Customer where
  "the_owner = \<lparr>customer_ident = 1, phone = ''+359888000001''\<rparr>"

definition fleet_db :: "int \<Rightarrow> ServiceReminder list \<Rightarrow> db" where
  "fleet_db km rs = \<lparr>shops = [the_shop], customers = [the_owner], cars = [car_at km],
                     work_orders = [wo_day100, wo_day0], service_reminders = rs\<rparr>"

text \<open>An unsent reminder of the car with an older prediction.\<close>

definition stale_reminder :: ServiceReminder where
  "stale_reminder = \<lparr>reminder_ident = 1, reminder_car_id = 1, reminder_customer_id = 1,
                     predicted_mileage = 100000, service_due_mileage = 100000,
                     reminder_sent = False, reminder_sent_at = None, reminder_created_at = 0\<rparr>"

text \<open>The time of the sweeps of the examples: day 101.\<close>

definition day101 :: datetime where
  "day101 = 101 * 86400000000"

text \<open>A car that gained 1 in two days: half a unit a day.\<close>

definition slow_db :: db where
  "slow_db = \<lparr>shops = [the_shop], customers = [the_owner], cars = [car_at 1000],
              work_orders =
                [\<lparr>wo_ident = 1, wo_car_id = 1, wo_status = DONE, mileage_at_intake = Some 0,
                  wo_created_at = 0\<rparr>,
                 \<lparr>wo_ident = 2, wo_car_id = 1, wo_status = DONE, mileage_at_intake = Some 1,
                  wo_created_at = 2 * 86400000000\<rparr>],
              service_reminders = []\<rparr>"



text \<open>
  Two shops: cars 1 and 2 in shop 1, car 3 in shop 2, each at 99000 with two visits as
  above, so that each is due. A sink that raises for car 1 and delivers to the others, and
  one that only fails to deliver to car 1.
\<close>

definition due_car :: "int \<Rightarrow> int \<Rightarrow> Car" where
  "due_car cid sid = \<lparr>car_ident = cid, car_shop_id = sid, owner_id = 1, current_mileage = 99000,
                      service_interval_km = 10000, car_updated_at = 0\<rparr>"

definition visits_of :: "int \<Rightarrow> WorkOrder list" where
  "visits_of cid =
     [\<lparr>wo_ident = 2 * cid - 1, wo_car_id = cid, wo_status = DONE, mileage_at_intake = Some 70000,
       wo_created_at = 0\<rparr>,
      \<lparr>wo_ident = 2 * cid, wo_car_id = cid, wo_status = DONE, mileage_at_intake = Some 80000,
       wo_created_at = 100 * 86400000000\<rparr>]"

definition two_shop_db :: "ServiceReminder list \<Rightarrow> db" where
  "two_shop_db rs =
     \<lparr>shops = [the_shop, \<lparr>shop_ident = 2, is_active = True, sms_enabled = True\<rparr>],
      customers = [the_owner],
      cars = [due_car 1 1, due_car 2 1, due_car 3 2],
      work_orders = visits_of 1 @ visits_of 2 @ visits_of 3,
      service_reminders = rs\<rparr>"

text \<open>The reminder a sweep creates for a due car, and the item it returns.\<close>

definition reminder_of :: "int \<Rightarrow> int \<Rightarrow> ServiceReminder" where
  "reminder_of rid cid = \<lparr>reminder_ident = rid, reminder_car_id = cid, reminder_customer_id = 1,
                          predicted_mileage = 100400, service_due_mileage = 100000,
                          reminder_sent = False, reminder_sent_at = None,
                          reminder_created_at = day101\<rparr>"

definition item_of :: "Car \<Rightarrow> int \<Rightarrow> reminder_item" where
  "item_of car rid = \<lparr>item_car = car, item_customer = Some the_owner,
                       item_predicted_mileage = Some 100400,
                       item_service_due_mileage = Some 100000, item_reminder_id = rid\<rparr>"

definition new_reminder :: ServiceReminder where
  "new_reminder = reminder_of 1 1"

definition due_item :: "int \<Rightarrow> reminder_item" where
  "due_item rid = item_of (car_at 99000) rid"

definition sent_at :: "datetime \<Rightarrow> ServiceReminder \<Rightarrow> ServiceReminder" where
  "sent_at t r = r\<lparr>reminder_sent := True, reminder_sent_at := Some t\<rparr>"


definition failing_sink :: sink where
  "failing_sink item = Inr (car_ident (item_car item) \<noteq> 1)"

section \<open>The rate, the prediction and the service threshold\<close>

subsection \<open>The visits that count\<close>


lemma set_done_work_orders:
  "set (done_work_orders_with_mileage d cid) =
     {w \<in> set (work_orders d). wo_car_id w = cid \<and> wo_status w = DONE \<and> mileage_at_intake w \<noteq> None}"
  by (auto simp: done_work_orders_with_mileage_def)







subsection \<open>Prediction and threshold\<close>





text \<open>
  \<^bold>\<open>C2.\<close> \<^verbatim>\<open>needs_service_reminder\<close> answers \<^verbatim>\<open>(False, None, None)\<close> when the car is not found
  or the predicted mileage is \<^verbatim>\<open>None\<close>. For a car with a positive service interval and a
  predicted mileage, the service is due at the current mileage minus its remainder modulo
  the interval, plus the interval, and a reminder is needed exactly when the predicted
  mileage reaches that value; the prediction is the one for the configured number of days.
\<close>

theorem needs_service_reminder_spec:
  "(get_car d cid = None \<longrightarrow> needs_service_reminder st d cid = Inr (False, None, None))
   \<and> (predict_mileage st d cid (SERVICE_REMINDER_DAYS_AHEAD st) = Inr None \<longrightarrow>
        needs_service_reminder st d cid = Inr (False, None, None))
   \<and> (get_car d cid = Some car \<and> 0 < service_interval_km car \<and>
        predict_mileage st d cid (SERVICE_REMINDER_DAYS_AHEAD st) = Inr (Some predicted) \<longrightarrow>
        needs_service_reminder st d cid =
          Inr (predicted \<ge> (current_mileage car - current_mileage car mod service_interval_km car)
                              + service_interval_km car,
               Some predicted,
               Some ((current_mileage car - current_mileage car mod service_interval_km car)
                      + service_interval_km car)))"
  by (simp add: needs_service_reminder_def Let_def split: option.splits)

section \<open>The reminder table\<close>

subsection \<open>Unsent reminders\<close>

lemma at_most_one_unsent_iff:
  "at_most_one_unsent d \<longleftrightarrow> (\<forall>cid. length (unsent_for d cid) \<le> 1)"
proof
  assume a: "at_most_one_unsent d"
  show "\<forall>cid. length (unsent_for d cid) \<le> 1"
  proof
    fix cid
    show "length (unsent_for d cid) \<le> 1"
    proof (cases "cid \<in> set (map reminder_car_id (service_reminders d))")
      case True
      with a show ?thesis unfolding at_most_one_unsent_def by blast
    next
      case False
      then have "unsent_for d cid = []"
        by (auto simp: unsent_for_def filter_empty_conv)
      then show ?thesis by simp
    qed
  qed
next
  assume "\<forall>cid. length (unsent_for d cid) \<le> 1"
  then show "at_most_one_unsent d" by (simp add: at_most_one_unsent_def)
qed

lemma unsent_reminder_None_iff: "unsent_reminder d cid = None \<longleftrightarrow> unsent_for d cid = []"
  by (auto simp: unsent_reminder_def unsent_for_def find_None_iff filter_empty_conv)

lemma find_Some_hd_filter:
  "find P xs = Some r \<Longrightarrow> filter P xs \<noteq> [] \<and> hd (filter P xs) = r"
  by (induction xs) (auto split: if_splits)

lemma unsent_reminder_hd:
  "unsent_reminder d cid = Some r \<Longrightarrow> unsent_for d cid \<noteq> [] \<and> hd (unsent_for d cid) = r"
  unfolding unsent_reminder_def unsent_for_def by (rule find_Some_hd_filter)

lemma find_append_Some: "find P xs = Some r \<Longrightarrow> find P (xs @ ys) = Some r"
  by (induction xs) auto

lemma find_append_None: "find P xs = None \<Longrightarrow> find P (xs @ ys) = find P ys"
  by (induction xs) (auto split: if_splits)

text \<open>What one loop body does to the store.\<close>

lemma reminder_for_car_None:
  "reminder_for_car st now d car = Inr (d', None) \<Longrightarrow> d' = d"
  by (auto simp: reminder_for_car_def add_reminder_def Let_def
      split: sum.splits prod.splits if_splits option.splits)

lemma reminder_for_car_Some:
  assumes "reminder_for_car st now d car = Inr (d', Some item)"
  shows "item_car item = car \<and>
         ((\<exists>r. unsent_reminder d (car_ident car) = Some r \<and> d' = d \<and>
               item_reminder_id item = reminder_ident r)
          \<or> (unsent_reminder d (car_ident car) = None \<and>
              (\<exists>p s. d' = fst (add_reminder now d car p s) \<and>
                     item_reminder_id item = next_reminder_id d)))"
  using assms
  by (auto simp: reminder_for_car_def add_reminder_def Let_def
      split: sum.splits prod.splits if_splits option.splits)

lemma service_reminders_add_reminder:
  "service_reminders (fst (add_reminder now d car p s)) =
     service_reminders d @
       [\<lparr>reminder_ident = next_reminder_id d, reminder_car_id = car_ident car,
         reminder_customer_id = owner_id car, predicted_mileage = p, service_due_mileage = s,
         reminder_sent = False, reminder_sent_at = None, reminder_created_at = now\<rparr>]"
  by (simp add: add_reminder_def Let_def)

subsection \<open>The loop of the sweep\<close>

lemma sweep_cars_Cons_Inr:
  assumes "sweep_cars st now d (car # rest) = (d', Inr items)"
  shows "(recent_reminder now d (car_ident car) \<noteq> None \<and>
            sweep_cars st now d rest = (d', Inr items))
       \<or> (recent_reminder now d (car_ident car) = None \<and>
            reminder_for_car st now d car = Inr (d, None) \<and>
            sweep_cars st now d rest = (d', Inr items))
       \<or> (recent_reminder now d (car_ident car) = None \<and>
            (\<exists>d1 item items'. reminder_for_car st now d car = Inr (d1, Some item) \<and>
               sweep_cars st now d1 rest = (d', Inr items') \<and> items = item # items'))"
proof (cases "recent_reminder now d (car_ident car) = None")
  case False
  with assms show ?thesis by simp
next
  case True
  show ?thesis
  proof (cases "reminder_for_car st now d car")
    case (Inl e)
    with assms True show ?thesis by simp
  next
    case (Inr p)
    obtain d1 io where p: "p = (d1, io)" by (cases p)
    show ?thesis
    proof (cases io)
      case None
      with Inr p have "d1 = d" using reminder_for_car_None by blast
      with assms True Inr p None show ?thesis by simp
    next
      case (Some item)
      with assms True Inr p show ?thesis
        by (auto split: prod.splits sum.splits)
    qed
  qed
qed

lemma fst_sweep_cars_Cons_item:
  "fst (case x of (d'', Inl e) \<Rightarrow> (d'', Inl e)
        | (d'', Inr items) \<Rightarrow> (d'', Inr (item # items))) = fst x"
  by (cases x) (simp split: sum.splits)

lemma sweep_cars_invariant:
  assumes step: "\<And>d car p s. I d \<Longrightarrow> recent_reminder now d (car_ident car) = None \<Longrightarrow>
                   unsent_reminder d (car_ident car) = None \<Longrightarrow>
                   I (fst (add_reminder now d car p s))"
    and "I d"
  shows "I (fst (sweep_cars st now d cs))"
  using \<open>I d\<close>
proof (induction cs arbitrary: d)
  case Nil
  then show ?case by simp
next
  case (Cons car rest)
  show ?case
  proof (cases "recent_reminder now d (car_ident car) = None")
    case False
    with Cons show ?thesis by simp
  next
    case True
    show ?thesis
    proof (cases "reminder_for_car st now d car")
      case (Inl e)
      with True Cons.prems show ?thesis by simp
    next
      case (Inr p)
      obtain d1 io where p: "p = (d1, io)" by (cases p)
      show ?thesis
      proof (cases io)
        case None
        with Inr p have "d1 = d" using reminder_for_car_None by blast
        with True Inr p None Cons show ?thesis by simp
      next
        case (Some item)
        have "I d1"
          using reminder_for_car_Some [OF Inr [unfolded p Some]] step Cons.prems True by auto
        then have "I (fst (sweep_cars st now d1 rest))" by (rule Cons.IH)
        with True Inr p Some show ?thesis
          by (simp add: fst_sweep_cars_Cons_item)
      qed
    qed
  qed
qed

subsection \<open>What a sweep does to the reminder table\<close>

lemma unsent_for_add_reminder:
  "unsent_for (fst (add_reminder now d car p s)) cid =
     unsent_for d cid @
       (if cid = car_ident car
        then [\<lparr>reminder_ident = next_reminder_id d, reminder_car_id = car_ident car,
               reminder_customer_id = owner_id car, predicted_mileage = p,
               service_due_mileage = s, reminder_sent = False, reminder_sent_at = None,
               reminder_created_at = now\<rparr>]
        else [])"
  by (simp add: unsent_for_def service_reminders_add_reminder)

lemma at_most_one_unsent_add_reminder:
  assumes "at_most_one_unsent d" "unsent_reminder d (car_ident car) = None"
  shows "at_most_one_unsent (fst (add_reminder now d car p s))"
proof -
  have e: "unsent_for d (car_ident car) = []"
    using assms(2) by (simp add: unsent_reminder_None_iff)
  have "length (unsent_for (fst (add_reminder now d car p s)) cid) \<le> 1" for cid
  proof (cases "cid = car_ident car")
    case True
    with e show ?thesis by (simp add: unsent_for_add_reminder)
  next
    case False
    with assms(1) show ?thesis
      by (simp add: unsent_for_add_reminder at_most_one_unsent_iff)
  qed
  then show ?thesis by (simp add: at_most_one_unsent_iff)
qed

lemma at_most_one_unsent_sweep_cars:
  "at_most_one_unsent d \<Longrightarrow> at_most_one_unsent (fst (sweep_cars st now d cs))"
  by (rule sweep_cars_invariant [where I = at_most_one_unsent])
     (simp_all add: at_most_one_unsent_add_reminder)

text \<open>The sweep only appends rows to the reminder table and touches no other table.\<close>

lemma sweep_cars_appends:
  "\<exists>new. service_reminders (fst (sweep_cars st now d cs)) = service_reminders d @ new"
proof -
  let ?I = "\<lambda>x::db. \<exists>new. service_reminders x = service_reminders d @ new"
  have "?I (fst (sweep_cars st now d cs))"
  proof (rule sweep_cars_invariant [where I = ?I])
    fix x :: db and car :: Car and p s :: int
    assume "\<exists>new. service_reminders x = service_reminders d @ new"
    then show "\<exists>new. service_reminders (fst (add_reminder now x car p s)) = service_reminders d @ new"
      by (auto simp: service_reminders_add_reminder)
  next
    show "?I d" by simp
  qed
  then show ?thesis .
qed

lemma sweep_cars_other_tables:
  "cars (fst (sweep_cars st now d cs)) = cars d \<and>
   work_orders (fst (sweep_cars st now d cs)) = work_orders d \<and>
   customers (fst (sweep_cars st now d cs)) = customers d \<and>
   shops (fst (sweep_cars st now d cs)) = shops d"
proof -
  let ?I = "\<lambda>x::db. cars x = cars d \<and> work_orders x = work_orders d \<and>
                 customers x = customers d \<and> shops x = shops d"
  have "?I (fst (sweep_cars st now d cs))"
    by (rule sweep_cars_invariant [where I = ?I]) (simp_all add: add_reminder_def Let_def)
  then show ?thesis .
qed

lemma recent_reminder_sweep_cars:
  assumes "recent_reminder now d cid \<noteq> None"
  shows "recent_reminder now (fst (sweep_cars st now d cs)) cid \<noteq> None"
proof -
  obtain new where n: "service_reminders (fst (sweep_cars st now d cs)) = service_reminders d @ new"
    using sweep_cars_appends by blast
  from assms obtain r where "recent_reminder now d cid = Some r" by auto
  then have "recent_reminder now (fst (sweep_cars st now d cs)) cid = Some r"
    unfolding recent_reminder_def n by (rule find_append_Some)
  then show ?thesis by simp
qed

lemma unsent_reminder_sweep_cars:
  assumes "unsent_reminder d cid = Some r"
  shows "unsent_reminder (fst (sweep_cars st now d cs)) cid = Some r"
proof -
  obtain new where n: "service_reminders (fst (sweep_cars st now d cs)) = service_reminders d @ new"
    using sweep_cars_appends by blast
  show ?thesis using assms unfolding unsent_reminder_def n by (rule find_append_Some)
qed

text \<open>A car that has an unsent reminder gets no new row.\<close>

lemma reminders_of_car_sweep_cars:
  assumes "unsent_reminder d cid = Some r"
  shows "filter (\<lambda>x. reminder_car_id x = cid) (service_reminders (fst (sweep_cars st now d cs))) =
         filter (\<lambda>x. reminder_car_id x = cid) (service_reminders d)"
proof -
  let ?I = "\<lambda>x::db. unsent_reminder x cid = Some r \<and>
                 filter (\<lambda>x. reminder_car_id x = cid) (service_reminders x) =
                 filter (\<lambda>x. reminder_car_id x = cid) (service_reminders d)"
  have "?I (fst (sweep_cars st now d cs))"
  proof (rule sweep_cars_invariant [where I = ?I])
    fix x :: db and car :: Car and p s :: int
    assume a: "?I x" and u: "unsent_reminder x (car_ident car) = None"
    from a u have ne: "car_ident car \<noteq> cid" by auto
    have "unsent_reminder (fst (add_reminder now x car p s)) cid = Some r"
      using a unfolding unsent_reminder_def service_reminders_add_reminder
      by (simp add: find_append_Some)
    moreover have "filter (\<lambda>x. reminder_car_id x = cid)
            (service_reminders (fst (add_reminder now x car p s))) =
          filter (\<lambda>x. reminder_car_id x = cid) (service_reminders d)"
      using a ne by (simp add: service_reminders_add_reminder)
    ultimately show "?I (fst (add_reminder now x car p s))" by simp
  next
    show "?I d" using assms by simp
  qed
  then show ?thesis by simp
qed

text \<open>Every item of the result names the first unsent reminder of its car.\<close>

lemma sweep_cars_item_unsent:
  assumes "sweep_cars st now d cs = (d', Inr items)" "item \<in> set items"
  shows "\<exists>r. unsent_reminder d' (car_ident (item_car item)) = Some r \<and>
             reminder_ident r = item_reminder_id item"
  using assms
proof (induction cs arbitrary: d items)
  case Nil
  then show ?case by simp
next
  case (Cons car rest)
  from sweep_cars_Cons_Inr [OF Cons.prems(1)]
  consider (skip) "sweep_cars st now d rest = (d', Inr items)"
    | (flag) d1 it items' where "reminder_for_car st now d car = Inr (d1, Some it)"
        "sweep_cars st now d1 rest = (d', Inr items')" "items = it # items'"
    by blast
  then show ?case
  proof cases
    case skip
    then show ?thesis using Cons.IH Cons.prems(2) by blast
  next
    case flag
    show ?thesis
    proof (cases "item = it")
      case False
      with flag Cons.prems(2) have "item \<in> set items'" by simp
      with flag(2) show ?thesis using Cons.IH by blast
    next
      case True
      have d': "d' = fst (sweep_cars st now d1 rest)" using flag(2) by simp
      from reminder_for_car_Some [OF flag(1)]
      have c: "item_car it = car" and
        alt: "(\<exists>r. unsent_reminder d (car_ident car) = Some r \<and> d1 = d \<and>
                 item_reminder_id it = reminder_ident r)
            \<or> (unsent_reminder d (car_ident car) = None \<and>
               (\<exists>p s. d1 = fst (add_reminder now d car p s) \<and>
                  item_reminder_id it = next_reminder_id d))"
        by simp_all
      have "\<exists>r. unsent_reminder d1 (car_ident car) = Some r \<and>
                reminder_ident r = item_reminder_id it"
        using alt
      proof
        assume "\<exists>r. unsent_reminder d (car_ident car) = Some r \<and> d1 = d \<and>
                 item_reminder_id it = reminder_ident r"
        then show ?thesis by auto
      next
        assume a: "unsent_reminder d (car_ident car) = None \<and>
               (\<exists>p s. d1 = fst (add_reminder now d car p s) \<and>
                  item_reminder_id it = next_reminder_id d)"
        then obtain p s where d1: "d1 = fst (add_reminder now d car p s)"
          and i: "item_reminder_id it = next_reminder_id d" by blast
        from a have n: "find (\<lambda>r. reminder_car_id r = car_ident car \<and> \<not> reminder_sent r)
                         (service_reminders d) = None"
          by (simp add: unsent_reminder_def)
        show ?thesis
          unfolding d1 unsent_reminder_def service_reminders_add_reminder
          by (simp add: find_append_None [OF n] i)
      qed
      then obtain r where "unsent_reminder d1 (car_ident car) = Some r"
        "reminder_ident r = item_reminder_id it" by blast
      then show ?thesis
        using unsent_reminder_sweep_cars [of d1 "car_ident car" r st now rest] True c d'
        by auto
    qed
  qed
qed

text \<open>A car with a recently sent reminder is in no item of the result.\<close>

lemma sweep_cars_skips_recent:
  assumes "recent_reminder now d cid \<noteq> None"
    "sweep_cars st now d cs = (d', Inr items)" "item \<in> set items"
  shows "car_ident (item_car item) \<noteq> cid"
  using assms
proof (induction cs arbitrary: d items)
  case Nil
  then show ?case by simp
next
  case (Cons car rest)
  from sweep_cars_Cons_Inr [OF Cons.prems(2)]
  consider (skip) "sweep_cars st now d rest = (d', Inr items)"
    | (flag) d1 it items' where "recent_reminder now d (car_ident car) = None"
        "reminder_for_car st now d car = Inr (d1, Some it)"
        "sweep_cars st now d1 rest = (d', Inr items')" "items = it # items'"
    by blast
  then show ?case
  proof cases
    case skip
    then show ?thesis using Cons.IH Cons.prems by blast
  next
    case flag
    have d1: "d1 = fst (sweep_cars st now d [car])"
      using flag(1,2) by simp
    have r1: "recent_reminder now d1 cid \<noteq> None"
      unfolding d1 using Cons.prems(1) by (rule recent_reminder_sweep_cars)
    show ?thesis
    proof (cases "item = it")
      case False
      with flag Cons.prems(3) have "item \<in> set items'" by simp
      with flag(3) r1 show ?thesis using Cons.IH by blast
    next
      case True
      from reminder_for_car_Some [OF flag(2)] have "item_car it = car" by simp
      with True flag(1) Cons.prems(1) show ?thesis by auto
    qed
  qed
qed

subsection \<open>At most one unsent reminder per car\<close>

lemma length_mark_first: "length (mark_first now rid rs) = length rs"
  by (induction rs) auto

lemma mark_first_no_match:
  "\<forall>r \<in> set rs. reminder_ident r \<noteq> rid \<Longrightarrow> mark_first now rid rs = rs"
  by (induction rs) auto

lemma mark_first_match:
  "\<forall>x \<in> set pre. reminder_ident x \<noteq> rid \<Longrightarrow> reminder_ident r = rid \<Longrightarrow>
     mark_first now rid (pre @ r # post) =
       pre @ r\<lparr>reminder_sent := True, reminder_sent_at := Some now\<rparr> # post"
  by (induction pre) auto

lemma unsent_mark_first:
  "length (filter (\<lambda>r. reminder_car_id r = cid \<and> \<not> reminder_sent r) (mark_first now rid rs))
     \<le> length (filter (\<lambda>r. reminder_car_id r = cid \<and> \<not> reminder_sent r) rs)"
  by (induction rs) auto

lemma at_most_one_unsent_mark_reminder_sent:
  assumes "at_most_one_unsent d"
  shows "at_most_one_unsent (mark_reminder_sent now d rid)"
proof -
  have "length (unsent_for (mark_reminder_sent now d rid) cid) \<le> 1" for cid
  proof -
    have "length (unsent_for (mark_reminder_sent now d rid) cid) \<le> length (unsent_for d cid)"
      by (simp add: unsent_for_def mark_reminder_sent_def unsent_mark_first)
    also have "\<dots> \<le> 1" using assms by (simp add: at_most_one_unsent_iff)
    finally show ?thesis .
  qed
  then show ?thesis by (simp add: at_most_one_unsent_iff)
qed

lemma at_most_one_unsent_check_all:
  "at_most_one_unsent d \<Longrightarrow>
     at_most_one_unsent (fst (check_all_cars_for_reminders st now d shop_id))"
  by (simp add: check_all_cars_for_reminders_def at_most_one_unsent_sweep_cars)

lemma at_most_one_unsent_apply_operation:
  "at_most_one_unsent d \<Longrightarrow> at_most_one_unsent (apply_operation st d opn)"
  by (cases opn)
     (simp_all add: at_most_one_unsent_check_all at_most_one_unsent_mark_reminder_sent)

lemma at_most_one_unsent_apply_operations:
  "at_most_one_unsent d \<Longrightarrow> at_most_one_unsent (apply_operations st d ops)"
  unfolding apply_operations_def
  by (induction ops arbitrary: d) (simp_all add: at_most_one_unsent_apply_operation)

lemma check_all_item_unsent:
  assumes "check_all_cars_for_reminders st now d shop_id = (d', Inr items)" "item \<in> set items"
  shows "\<exists>r. unsent_reminder d' (car_ident (item_car item)) = Some r \<and>
             reminder_ident r = item_reminder_id item"
  using assms unfolding check_all_cars_for_reminders_def by (rule sweep_cars_item_unsent)

lemma flagged_exactly_one_unsent:
  assumes "at_most_one_unsent d"
    "check_all_cars_for_reminders st now d shop_id = (d', Inr items)" "item \<in> set items"
  shows "length (unsent_for d' (car_ident (item_car item))) = 1"
proof -
  have "d' = fst (check_all_cars_for_reminders st now d shop_id)" using assms(2) by simp
  then have "at_most_one_unsent d'" using assms(1) by (simp add: at_most_one_unsent_check_all)
  then have le: "length (unsent_for d' (car_ident (item_car item))) \<le> 1"
    by (simp add: at_most_one_unsent_iff)
  from check_all_item_unsent [OF assms(2,3)]
  have "unsent_for d' (car_ident (item_car item)) \<noteq> []"
    using unsent_reminder_hd by blast
  then have "length (unsent_for d' (car_ident (item_car item))) \<noteq> 0" by simp
  with le show ?thesis by linarith
qed

text \<open>
  \<^bold>\<open>C4.\<close> From a store in which every car has at most one unsent reminder, any sequence of
  sweeps and of calls of \<^verbatim>\<open>mark_reminder_sent\<close> leads to a store in which every car has at
  most one unsent reminder, and after a further sweep every car in its result has exactly
  one. When a car is in the result of a sweep and again in the result of the next sweep
  (nothing was marked in between), it has exactly one unsent reminder afterwards, both
  results name that reminder, and the second sweep has added no row for the car.
\<close>

theorem at_most_one_unsent_reminder:
  assumes "at_most_one_unsent d"
  shows "at_most_one_unsent (apply_operations st d ops)
       \<and> (check_all_cars_for_reminders st now (apply_operations st d ops) shop_id' = (d', Inr items)
            \<and> item \<in> set items \<longrightarrow>
          length (unsent_for d' (car_ident (item_car item))) = 1)
       \<and> (check_all_cars_for_reminders st now1 d shop_id = (d1, Inr items1) \<and>
          item1 \<in> set items1 \<and> car_ident (item_car item1) = cid \<and>
          check_all_cars_for_reminders st now2 d1 shop_id = (d2, Inr items2) \<and>
          item2 \<in> set items2 \<and> car_ident (item_car item2) = cid \<longrightarrow>
            length (unsent_for d2 cid) = 1 \<and>
            item_reminder_id item2 = item_reminder_id item1 \<and>
            filter (\<lambda>r. reminder_car_id r = cid) (service_reminders d2) =
            filter (\<lambda>r. reminder_car_id r = cid) (service_reminders d1))"
proof -
  have reach: "at_most_one_unsent (apply_operations st d ops)"
    using assms by (rule at_most_one_unsent_apply_operations)
  have flagged: "check_all_cars_for_reminders st now (apply_operations st d ops) shop_id' =
            (d', Inr items) \<and> item \<in> set items \<longrightarrow>
          length (unsent_for d' (car_ident (item_car item))) = 1"
    using flagged_exactly_one_unsent [OF reach] by blast
  have twice: "check_all_cars_for_reminders st now1 d shop_id = (d1, Inr items1) \<and>
          item1 \<in> set items1 \<and> car_ident (item_car item1) = cid \<and>
          check_all_cars_for_reminders st now2 d1 shop_id = (d2, Inr items2) \<and>
          item2 \<in> set items2 \<and> car_ident (item_car item2) = cid \<longrightarrow>
            length (unsent_for d2 cid) = 1 \<and>
            item_reminder_id item2 = item_reminder_id item1 \<and>
            filter (\<lambda>r. reminder_car_id r = cid) (service_reminders d2) =
            filter (\<lambda>r. reminder_car_id r = cid) (service_reminders d1)"
  proof
    assume a: "check_all_cars_for_reminders st now1 d shop_id = (d1, Inr items1) \<and>
          item1 \<in> set items1 \<and> car_ident (item_car item1) = cid \<and>
          check_all_cars_for_reminders st now2 d1 shop_id = (d2, Inr items2) \<and>
          item2 \<in> set items2 \<and> car_ident (item_car item2) = cid"
    then have s1: "check_all_cars_for_reminders st now1 d shop_id = (d1, Inr items1)"
      and i1: "item1 \<in> set items1" and c1: "car_ident (item_car item1) = cid"
      and s2: "check_all_cars_for_reminders st now2 d1 shop_id = (d2, Inr items2)"
      and i2: "item2 \<in> set items2" and c2: "car_ident (item_car item2) = cid"
      by simp_all
    have "d1 = fst (check_all_cars_for_reminders st now1 d shop_id)" using s1 by simp
    then have inv1: "at_most_one_unsent d1"
      using assms by (simp add: at_most_one_unsent_check_all)
    have one: "length (unsent_for d2 cid) = 1"
      using flagged_exactly_one_unsent [OF inv1 s2 i2] c2 by simp
    from check_all_item_unsent [OF s1 i1] c1
    obtain r where r: "unsent_reminder d1 cid = Some r" "reminder_ident r = item_reminder_id item1"
      by auto
    have d2: "d2 = fst (sweep_cars st now2 d1
         (filter (\<lambda>c. car_shop_id c = shop_id \<and> service_interval_km c > 0) (cars d1)))"
      using s2 by (simp add: check_all_cars_for_reminders_def)
    have r2: "unsent_reminder d2 cid = Some r"
      unfolding d2 using r(1) by (rule unsent_reminder_sweep_cars)
    from check_all_item_unsent [OF s2 i2] c2 r2
    have same: "item_reminder_id item2 = item_reminder_id item1" using r(2) by auto
    have rows: "filter (\<lambda>r. reminder_car_id r = cid) (service_reminders d2) =
            filter (\<lambda>r. reminder_car_id r = cid) (service_reminders d1)"
      unfolding d2 using r(1) by (rule reminders_of_car_sweep_cars)
    from one same rows
    show "length (unsent_for d2 cid) = 1 \<and>
            item_reminder_id item2 = item_reminder_id item1 \<and>
            filter (\<lambda>r. reminder_car_id r = cid) (service_reminders d2) =
            filter (\<lambda>r. reminder_car_id r = cid) (service_reminders d1)"
      by simp
  qed
  from reach flagged twice show ?thesis by blast
qed

subsection \<open>Suppression\<close>

lemma recent_reminder_iff:
  "recent_reminder now d cid \<noteq> None \<longleftrightarrow> notified_since (now - timedelta_days 30) d cid"
  unfolding recent_reminder_def notified_since_def find_None_iff by auto

lemma notified_since_mono:
  "notified_since t1 d cid \<Longrightarrow> t0 \<le> t1 \<Longrightarrow> notified_since t0 d cid"
  unfolding notified_since_def by (fastforce split: option.splits)

lemma mark_first_marks:
  "find (\<lambda>r. reminder_ident r = rid) rs = Some r \<Longrightarrow>
     r\<lparr>reminder_sent := True, reminder_sent_at := Some now\<rparr> \<in> set (mark_first now rid rs)"
  by (induction rs) (auto split: if_splits)

lemma notified_since_marked:
  assumes "find (\<lambda>r. reminder_ident r = rid) (service_reminders d) = Some r"
    and "reminder_car_id r = cid"
  shows "notified_since t (mark_reminder_sent t d rid) cid"
proof -
  let ?r = "r\<lparr>reminder_sent := True, reminder_sent_at := Some t\<rparr>"
  have "?r \<in> set (service_reminders (mark_reminder_sent t d rid))"
    using assms(1) by (simp add: mark_reminder_sent_def mark_first_marks)
  moreover have "reminder_car_id ?r = cid \<and> reminder_sent ?r \<and> reminder_sent_at ?r = Some t"
    using assms(2) by simp
  ultimately show ?thesis unfolding notified_since_def
    by (intro bexI [where x = ?r]) simp_all
qed

text \<open>Later marks and sweeps do not undo it.\<close>

lemma mark_first_keeps_notified:
  assumes "t0 \<le> now"
    and "\<exists>r \<in> set rs. reminder_car_id r = cid \<and> reminder_sent r \<and>
           (case reminder_sent_at r of None \<Rightarrow> False | Some t \<Rightarrow> t0 \<le> t)"
  shows "\<exists>r \<in> set (mark_first now rid rs). reminder_car_id r = cid \<and> reminder_sent r \<and>
           (case reminder_sent_at r of None \<Rightarrow> False | Some t \<Rightarrow> t0 \<le> t)"
  using assms(2)
proof (induction rs)
  case Nil
  then show ?case by simp
next
  case (Cons x xs)
  show ?case
  proof (cases "reminder_ident x = rid")
    case True
    show ?thesis
    proof (cases "reminder_car_id x = cid")
      case True
      with \<open>reminder_ident x = rid\<close> assms(1) show ?thesis by simp
    next
      case False
      with Cons.prems \<open>reminder_ident x = rid\<close> show ?thesis by auto
    qed
  next
    case False
    with Cons show ?thesis by auto
  qed
qed

lemma notified_since_mark_reminder_sent:
  "notified_since t0 d cid \<Longrightarrow> t0 \<le> now \<Longrightarrow>
     notified_since t0 (mark_reminder_sent now d rid) cid"
  unfolding notified_since_def mark_reminder_sent_def
  using mark_first_keeps_notified [of t0 now "service_reminders d" cid rid] by simp

lemma notified_since_sweep_cars:
  assumes "notified_since t0 d cid"
  shows "notified_since t0 (fst (sweep_cars st now d cs)) cid"
proof -
  obtain new where "service_reminders (fst (sweep_cars st now d cs)) = service_reminders d @ new"
    using sweep_cars_appends by blast
  with assms show ?thesis unfolding notified_since_def by auto
qed

lemma notified_since_apply_operation:
  "notified_since t0 d cid \<Longrightarrow> marked_not_before t0 opn \<Longrightarrow>
     notified_since t0 (apply_operation st d opn) cid"
  by (cases opn)
     (simp_all add: check_all_cars_for_reminders_def notified_since_sweep_cars
        notified_since_mark_reminder_sent)

lemma notified_since_apply_operations:
  "notified_since t0 d cid \<Longrightarrow> \<forall>opn \<in> set ops. marked_not_before t0 opn \<Longrightarrow>
     notified_since t0 (apply_operations st d ops) cid"
  unfolding apply_operations_def
  by (induction ops arbitrary: d) (simp_all add: notified_since_apply_operation)

text \<open>A car notified within the window gets no row and no item in a sweep.\<close>

lemma reminders_of_recent_car_sweep_cars:
  assumes "recent_reminder now d cid \<noteq> None"
  shows "filter (\<lambda>x. reminder_car_id x = cid) (service_reminders (fst (sweep_cars st now d cs))) =
         filter (\<lambda>x. reminder_car_id x = cid) (service_reminders d)"
proof -
  let ?I = "\<lambda>x::db. recent_reminder now x cid \<noteq> None \<and>
                 filter (\<lambda>x. reminder_car_id x = cid) (service_reminders x) =
                 filter (\<lambda>x. reminder_car_id x = cid) (service_reminders d)"
  have "?I (fst (sweep_cars st now d cs))"
  proof (rule sweep_cars_invariant [where I = ?I])
    fix x :: db and car :: Car and p s :: int
    assume a: "?I x" and n: "recent_reminder now x (car_ident car) = None"
    from a n have ne: "car_ident car \<noteq> cid" by auto
    from a obtain r where "recent_reminder now x cid = Some r" by auto
    then have "recent_reminder now (fst (add_reminder now x car p s)) cid = Some r"
      unfolding recent_reminder_def service_reminders_add_reminder by (rule find_append_Some)
    moreover have "filter (\<lambda>x. reminder_car_id x = cid)
            (service_reminders (fst (add_reminder now x car p s))) =
          filter (\<lambda>x. reminder_car_id x = cid) (service_reminders d)"
      using a ne by (simp add: service_reminders_add_reminder)
    ultimately show "?I (fst (add_reminder now x car p s))" by simp
  next
    show "?I d" using assms by simp
  qed
  then show ?thesis by simp
qed

text \<open>Nor is the sink called for it by the job.\<close>

lemma send_reminders_log:
  "send_reminders snk now d items = (d', sent, err) \<Longrightarrow>
     fst ` set sent \<subseteq> (\<lambda>i. car_ident (item_car i)) ` set items"
proof (induction items arbitrary: d d' sent err)
  case Nil
  then show ?case by simp
next
  case (Cons item rest)
  show ?case
  proof (cases "item_customer item")
    case None
    with Cons.prems show ?thesis by simp
  next
    case (Some c)
    show ?thesis
    proof (cases "snk item")
      case (Inl e)
      with Some Cons.prems show ?thesis by simp
    next
      case (Inr b)
      let ?d1 = "if b then mark_reminder_sent now d (item_reminder_id item) else d"
      obtain d2 sent2 err2 where r: "send_reminders snk now ?d1 rest = (d2, sent2, err2)"
        by (cases "send_reminders snk now ?d1 rest") auto
      from Cons.IH [OF r] have "fst ` set sent2 \<subseteq> (\<lambda>i. car_ident (item_car i)) ` set rest" .
      moreover have "sent = (car_ident (item_car item), b) # sent2"
        using Cons.prems Some Inr r by (simp add: Let_def)
      ultimately show ?thesis by auto
    qed
  qed
qed

lemma send_reminders_keeps_notified:
  "notified_since t0 d cid \<Longrightarrow> t0 \<le> now \<Longrightarrow>
     notified_since t0 (fst (send_reminders snk now d items)) cid"
proof (induction items arbitrary: d)
  case Nil
  then show ?case by simp
next
  case (Cons item rest)
  show ?case
  proof (cases "item_customer item")
    case None
    with Cons.prems show ?thesis by simp
  next
    case (Some c)
    show ?thesis
    proof (cases "snk item")
      case (Inl e)
      with Some Cons.prems show ?thesis by simp
    next
      case (Inr b)
      let ?d1 = "if b then mark_reminder_sent now d (item_reminder_id item) else d"
      have "notified_since t0 ?d1 cid"
        using Cons.prems by (simp add: notified_since_mark_reminder_sent)
      from Cons.IH [OF this Cons.prems(2)]
      have n: "notified_since t0 (fst (send_reminders snk now ?d1 rest)) cid" .
      obtain d2 sent2 err2 where r: "send_reminders snk now ?d1 rest = (d2, sent2, err2)"
        by (cases "send_reminders snk now ?d1 rest") auto
      have "fst (send_reminders snk now d (item # rest)) = d2"
        using Some Inr r by (simp add: Let_def)
      with n r show ?thesis by simp
    qed
  qed
qed

lemma check_shops_skips_notified:
  assumes "t0 = now - timedelta_days 30"
  shows "notified_since t0 d cid \<Longrightarrow>
           cid \<notin> fst ` set (fst (snd (check_shops st snk now d shs)))"
proof (induction shs arbitrary: d)
  case Nil
  then show ?case by simp
next
  case (Cons shop rest)
  have le: "t0 \<le> now" using assms by (simp add: timedelta_days_def microseconds_per_day_def)
  let ?cs = "filter (\<lambda>c. car_shop_id c = shop_ident shop \<and> service_interval_km c > 0) (cars d)"
  obtain d1 res where sw: "sweep_cars st now d ?cs = (d1, res)"
    by (cases "sweep_cars st now d ?cs") auto
  then have ca: "check_all_cars_for_reminders st now d (shop_ident shop) = (d1, res)"
    by (simp add: check_all_cars_for_reminders_def)
  have n1: "notified_since t0 d1 cid"
    using notified_since_sweep_cars [OF Cons.prems, of st now ?cs] sw by simp
  show ?case
  proof (cases res)
    case (Inl e)
    with ca show ?thesis by simp
  next
    case (Inr items)
    have rec: "recent_reminder now d cid \<noteq> None"
      using Cons.prems unfolding assms by (rule iffD2 [OF recent_reminder_iff])
    have no: "cid \<notin> (\<lambda>i. car_ident (item_car i)) ` set items"
      using sweep_cars_skips_recent [OF rec] sw Inr by blast
    obtain d2 sent err where sr: "send_reminders snk now d1 items = (d2, sent, err)"
      by (cases "send_reminders snk now d1 items") auto
    have s: "cid \<notin> fst ` set sent"
      using send_reminders_log [OF sr] no by blast
    have n2: "notified_since t0 d2 cid"
      using send_reminders_keeps_notified [OF n1 le, of snk items] sr by simp
    show ?thesis
    proof (cases err)
      case (Some e)
      with ca Inr sr s show ?thesis by simp
    next
      case None
      obtain d3 sent' err' where r: "check_shops st snk now d2 rest = (d3, sent', err')"
        by (cases "check_shops st snk now d2 rest") auto
      from Cons.IH [OF n2] r have "cid \<notin> fst ` set sent'" by simp
      with ca Inr sr s None r show ?thesis by (simp add: image_Un)
    qed
  qed
qed

text \<open>
  \<^bold>\<open>C5.\<close> When the reminder of a car has been marked sent at time \<open>T\<close>, then after any
  further sweeps and marks (none of them marking before \<open>T\<close>), a sweep at a time \<open>now\<close>
  with \<open>now\<close> minus 30 days not after \<open>T\<close> finds the sent reminder and skips the car: it
  has no item for the car in its result and adds no reminder for the car. The job run at
  that time does not call the sink for the car, whatever the sink.
\<close>

theorem sweep_skips_recently_notified:
  assumes "find (\<lambda>r. reminder_ident r = rid) (service_reminders d0) = Some r0"
    and "reminder_car_id r0 = cid"
    and "\<forall>opn \<in> set ops. marked_not_before T opn"
    and "d = apply_operations st (mark_reminder_sent T d0 rid) ops"
    and "now - timedelta_days 30 \<le> T"
    and "check_all_cars_for_reminders st now d shop_id = (d', res)"
  shows "recent_reminder now d cid \<noteq> None
       \<and> (\<forall>items. res = Inr items \<longrightarrow> (\<forall>item \<in> set items. car_ident (item_car item) \<noteq> cid))
       \<and> filter (\<lambda>r. reminder_car_id r = cid) (service_reminders d') =
         filter (\<lambda>r. reminder_car_id r = cid) (service_reminders d)
       \<and> cid \<notin> fst ` set (fst (snd (check_service_reminders st snk now d)))"
proof -
  have "notified_since T (mark_reminder_sent T d0 rid) cid"
    using assms(1,2) by (rule notified_since_marked)
  then have "notified_since T d cid"
    unfolding assms(4) using assms(3) by (rule notified_since_apply_operations)
  then have ns: "notified_since (now - timedelta_days 30) d cid"
    using assms(5) by (rule notified_since_mono)
  then have rec: "recent_reminder now d cid \<noteq> None"
    by (rule iffD2 [OF recent_reminder_iff])
  let ?cs = "filter (\<lambda>c. car_shop_id c = shop_id \<and> service_interval_km c > 0) (cars d)"
  have sw: "sweep_cars st now d ?cs = (d', res)"
    using assms(6) by (simp add: check_all_cars_for_reminders_def)
  have items: "\<forall>items. res = Inr items \<longrightarrow> (\<forall>item \<in> set items. car_ident (item_car item) \<noteq> cid)"
    using sweep_cars_skips_recent [OF rec] sw by blast
  have "d' = fst (sweep_cars st now d ?cs)" using sw by simp
  then have rows: "filter (\<lambda>r. reminder_car_id r = cid) (service_reminders d') =
         filter (\<lambda>r. reminder_car_id r = cid) (service_reminders d)"
    using reminders_of_recent_car_sweep_cars [OF rec] by simp
  have job: "cid \<notin> fst ` set (fst (snd (check_service_reminders st snk now d)))"
    unfolding check_service_reminders_def
    using check_shops_skips_notified [OF refl ns] .
  from rec items rows job show ?thesis by simp
qed

subsection \<open>Reuse of the unsent reminder\<close>


subsection \<open>The updates\<close>






text \<open>
  \<^bold>\<open>C10.\<close> \<^verbatim>\<open>mark_reminder_sent\<close> leaves the store as it is when no reminder has the id.
  Otherwise it sets the sent flag and the sent time of the first reminder with the id, and
  leaves the other fields of that reminder, the reminders before and after it, and the
  other tables as they are.
\<close>

theorem mark_reminder_sent_frame:
  "((\<forall>r \<in> set (service_reminders d). reminder_ident r \<noteq> reminder_id) \<longrightarrow>
      mark_reminder_sent now d reminder_id = d)
   \<and> (service_reminders d = pre @ r # post \<and> (\<forall>x \<in> set pre. reminder_ident x \<noteq> reminder_id) \<and>
      reminder_ident r = reminder_id \<longrightarrow>
      mark_reminder_sent now d reminder_id =
        d\<lparr>service_reminders :=
            pre @ r\<lparr>reminder_sent := True, reminder_sent_at := Some now\<rparr> # post\<rparr>)"
  by (simp add: mark_reminder_sent_def mark_first_no_match mark_first_match)

section \<open>Exceptions\<close>

subsection \<open>The read-only operations do not raise\<close>




subsection \<open>Errors in the daily job\<close>





section \<open>Instances on the example stores\<close>

subsection \<open>The example stores, evaluated\<close>

lemmas example_defs = fleet_db_def car_at_def wo_day0_def wo_day100_def the_shop_def
  the_owner_def stale_reminder_def day101_def default_settings_def

lemma fleet_db_visits [simp]:
  "done_work_orders_with_mileage (fleet_db km rs) 1 = [wo_day0, wo_day100]"
  by (simp add: done_work_orders_with_mileage_def example_defs)

lemma fleet_db_car [simp]: "get_car (fleet_db km rs) 1 = Some (car_at km)"
  by (simp add: get_car_def example_defs)

lemma fleet_db_rate [simp]:
  "calculate_average_km_per_day default_settings (fleet_db km rs) 1 = Inr (Some 100)"
  by (simp add: calculate_average_km_per_day_def mileage_sub_def days_between_def
      microseconds_per_day_def wo_day0_def wo_day100_def default_settings_def)

lemma fleet_db_predicted [simp]:
  "predict_mileage default_settings (fleet_db km rs) 1 14 = Inr (Some (km + 1400))"
  by (simp add: predict_mileage_def py_int_def car_at_def)

lemma fleet_db_needs [simp]:
  "needs_service_reminder default_settings (fleet_db 99000 rs) 1 =
     Inr (True, Some 100400, Some 100000)"
proof -
  have "SERVICE_REMINDER_DAYS_AHEAD default_settings = 14" by (simp add: default_settings_def)
  then show ?thesis by (simp add: needs_service_reminder_def car_at_def)
qed

lemma slow_db_rate [simp]:
  "calculate_average_km_per_day default_settings slow_db 1 = Inr (Some (1 / 2))"
  by (simp add: calculate_average_km_per_day_def done_work_orders_with_mileage_def
      mileage_sub_def days_between_def microseconds_per_day_def slow_db_def default_settings_def)

lemma slow_db_car [simp]: "get_car slow_db 1 = Some (car_at 1000)"
  by (simp add: get_car_def slow_db_def car_at_def the_shop_def the_owner_def)



subsection \<open>Rate, prediction and threshold\<close>


text \<open>At 99000 with 100 a day, 100400 is predicted and the service is due at 100000.\<close>

theorem needs_service_reminder_spec_witness:
  "get_car (fleet_db 99000 []) 1 = Some (car_at 99000)
   \<and> 0 < service_interval_km (car_at 99000)
   \<and> predict_mileage default_settings (fleet_db 99000 [])  1
         (SERVICE_REMINDER_DAYS_AHEAD default_settings) = Inr (Some 100400)
   \<and> needs_service_reminder default_settings (fleet_db 99000 []) 1 =
         Inr (True, Some 100400, Some 100000)
   \<and> get_car (fleet_db 99000 []) 2 = None
   \<and> needs_service_reminder default_settings (fleet_db 99000 []) 2 = Inr (False, None, None)"
proof -
  have h: "SERVICE_REMINDER_DAYS_AHEAD default_settings = 14" by (simp add: default_settings_def)
  have n: "get_car (fleet_db 99000 []) 2 = None" by (simp add: get_car_def example_defs)
  show ?thesis
    using needs_service_reminder_spec
        [where st = default_settings and d = "fleet_db 99000 []" and cid = 1
           and car = "car_at 99000" and predicted = 100400]
      needs_service_reminder_spec
        [where st = default_settings and d = "fleet_db 99000 []" and cid = 2]
      n
    by (simp add: h car_at_def)
qed



subsection \<open>Sweeps of the one-car store\<close>

lemma fleet_db_sel [simp]:
  "service_reminders (fleet_db km rs) = rs"
  "cars (fleet_db km rs) = [car_at km]"
  "customers (fleet_db km rs) = [the_owner]"
  "shops (fleet_db km rs) = [the_shop]"
  "(fleet_db km rs)\<lparr>service_reminders := rs'\<rparr> = fleet_db km rs'"
  by (simp_all add: fleet_db_def)

lemma car_at_sel [simp]:
  "car_ident (car_at km) = 1" "car_shop_id (car_at km) = 1" "owner_id (car_at km) = 1"
  "current_mileage (car_at km) = km" "service_interval_km (car_at km) = 10000"
  by (simp_all add: car_at_def)

lemma the_owner_sel [simp]: "customer_ident the_owner = 1"
  by (simp add: the_owner_def)

lemma the_shop_sel [simp]: "shop_ident the_shop = 1" "is_active the_shop" "sms_enabled the_shop"
  by (simp_all add: the_shop_def)

lemma reminder_for_car_fresh:
  "reminder_for_car default_settings now (fleet_db 99000 []) (car_at 99000) =
     Inr (fleet_db 99000 [new_reminder\<lparr>reminder_created_at := now\<rparr>], Some (due_item 1))"
  by (simp add: reminder_for_car_def unsent_reminder_def add_reminder_def next_reminder_id_def
      Let_def new_reminder_def reminder_of_def due_item_def item_of_def car_owner_def day101_def)

lemma sweep_fresh:
  "check_all_cars_for_reminders default_settings now (fleet_db 99000 []) 1 =
     (fleet_db 99000 [new_reminder\<lparr>reminder_created_at := now\<rparr>], Inr [due_item 1])"
  by (simp add: check_all_cars_for_reminders_def recent_reminder_def reminder_for_car_fresh)

lemma reminder_for_car_unsent:
  "\<not> reminder_sent r \<Longrightarrow> reminder_car_id r = 1 \<Longrightarrow>
   reminder_for_car default_settings now (fleet_db 99000 [r]) (car_at 99000) =
     Inr (fleet_db 99000 [r], Some (due_item (reminder_ident r)))"
  by (simp add: reminder_for_car_def unsent_reminder_def due_item_def item_of_def car_owner_def)

lemma sweep_unsent:
  "\<not> reminder_sent r \<Longrightarrow> reminder_car_id r = 1 \<Longrightarrow>
   check_all_cars_for_reminders default_settings now (fleet_db 99000 [r]) 1 =
     (fleet_db 99000 [r], Inr [due_item (reminder_ident r)])"
  by (simp add: check_all_cars_for_reminders_def recent_reminder_def reminder_for_car_unsent)

lemma sweep_recent:
  "reminder_sent r \<Longrightarrow> reminder_car_id r = 1 \<Longrightarrow> reminder_sent_at r = Some t \<Longrightarrow>
   now - timedelta_days 30 \<le> t \<Longrightarrow>
   check_all_cars_for_reminders default_settings now (fleet_db 99000 [r]) 1 =
     (fleet_db 99000 [r], Inr [])"
  by (simp add: check_all_cars_for_reminders_def recent_reminder_def)

subsection \<open>Reminders and updates on the one-car store\<close>

lemma new_reminder_sel [simp]:
  "reminder_ident new_reminder = 1" "reminder_car_id new_reminder = 1"
  "\<not> reminder_sent new_reminder" "new_reminder\<lparr>reminder_created_at := day101\<rparr> = new_reminder"
  by (simp_all add: new_reminder_def reminder_of_def)

lemma stale_reminder_sel [simp]:
  "reminder_ident stale_reminder = 1" "reminder_car_id stale_reminder = 1"
  "\<not> reminder_sent stale_reminder" "predicted_mileage stale_reminder = 100000"
  by (simp_all add: stale_reminder_def)

lemma sent_at_sel [simp]:
  "reminder_ident (sent_at t r) = reminder_ident r" "reminder_car_id (sent_at t r) = reminder_car_id r"
  "reminder_sent (sent_at t r)" "reminder_sent_at (sent_at t r) = Some t"
  by (simp_all add: sent_at_def)

lemma mark_fleet_db:
  "mark_reminder_sent t (fleet_db km [r]) rid =
     fleet_db km [if reminder_ident r = rid then sent_at t r else r]"
  by (simp add: mark_reminder_sent_def sent_at_def)

lemma apply_operations_Cons:
  "apply_operations st d (opn # ops) = apply_operations st (apply_operation st d opn) ops"
  by (simp add: apply_operations_def)

lemma apply_operations_Nil: "apply_operations st d [] = d"
  by (simp add: apply_operations_def)

text \<open>Two sweeps of the car due at 99000, starting without reminders.\<close>

theorem at_most_one_unsent_reminder_witness:
  "at_most_one_unsent (fleet_db 99000 [])
   \<and> apply_operations default_settings (fleet_db 99000 [])
       [Sweep day101 1, MarkSent day101 7] = fleet_db 99000 [new_reminder]
   \<and> at_most_one_unsent (fleet_db 99000 [new_reminder])
   \<and> check_all_cars_for_reminders default_settings day101 (fleet_db 99000 []) 1 =
       (fleet_db 99000 [new_reminder], Inr [due_item 1])
   \<and> check_all_cars_for_reminders default_settings (day101 + 86400000000)
         (fleet_db 99000 [new_reminder]) 1 =
       (fleet_db 99000 [new_reminder], Inr [due_item 1])
   \<and> length (unsent_for (fleet_db 99000 [new_reminder]) 1) = 1"
proof -
  have inv: "at_most_one_unsent (fleet_db 99000 [])"
    by (simp add: at_most_one_unsent_def)
  have s1: "check_all_cars_for_reminders default_settings day101 (fleet_db 99000 []) 1 =
       (fleet_db 99000 [new_reminder], Inr [due_item 1])"
    by (simp add: sweep_fresh)
  have s2: "check_all_cars_for_reminders default_settings (day101 + 86400000000)
         (fleet_db 99000 [new_reminder]) 1 =
       (fleet_db 99000 [new_reminder], Inr [due_item 1])"
    by (simp add: sweep_unsent)
  have ops: "apply_operations default_settings (fleet_db 99000 [])
       [Sweep day101 1, MarkSent day101 7] = fleet_db 99000 [new_reminder]"
    by (simp add: apply_operations_Cons apply_operations_Nil s1 mark_fleet_db)
  have c: "car_ident (item_car (due_item 1)) = 1"
    by (simp add: due_item_def item_of_def)
  from at_most_one_unsent_reminder [OF inv,
      where st = default_settings
        and ops = "[Sweep day101 1, MarkSent day101 7]"
        and now = "day101 + 86400000000" and shop_id' = 1
        and d' = "fleet_db 99000 [new_reminder]" and items = "[due_item 1]"
        and item = "due_item 1"
        and ?now1.0 = day101 and shop_id = 1 and ?d1.0 = "fleet_db 99000 [new_reminder]"
        and ?items1.0 = "[due_item 1]" and ?item1.0 = "due_item 1" and cid = 1
        and ?now2.0 = "day101 + 86400000000" and ?d2.0 = "fleet_db 99000 [new_reminder]"
        and ?items2.0 = "[due_item 1]" and ?item2.0 = "due_item 1"]
  show ?thesis using inv s1 s2 ops c by simp
qed

text \<open>A sweep and a run of the job one day after the reminder was marked sent.\<close>

theorem sweep_skips_recently_notified_witness:
  "find (\<lambda>r. reminder_ident r = 1) (service_reminders (fleet_db 99000 [new_reminder])) =
     Some new_reminder
   \<and> reminder_car_id new_reminder = 1
   \<and> marked_not_before day101 (Sweep day101 1)
   \<and> marked_not_before day101 (MarkSent (day101 + 1) 7)
   \<and> apply_operations default_settings
         (mark_reminder_sent day101 (fleet_db 99000 [new_reminder]) 1)
         [Sweep day101 1, MarkSent (day101 + 1) 7] =
       fleet_db 99000 [sent_at day101 new_reminder]
   \<and> (day101 + 86400000000) - timedelta_days 30 \<le> day101
   \<and> check_all_cars_for_reminders default_settings (day101 + 86400000000)
         (fleet_db 99000 [sent_at day101 new_reminder]) 1 =
       (fleet_db 99000 [sent_at day101 new_reminder], Inr [])
   \<and> recent_reminder (day101 + 86400000000) (fleet_db 99000 [sent_at day101 new_reminder]) 1
       \<noteq> None
   \<and> check_service_reminders default_settings failing_sink (day101 + 86400000000)
         (fleet_db 99000 [sent_at day101 new_reminder]) =
       (fleet_db 99000 [sent_at day101 new_reminder], [], None)"
proof -
  let ?d = "fleet_db 99000 [sent_at day101 new_reminder]"
  have f: "find (\<lambda>r. reminder_ident r = 1) (service_reminders (fleet_db 99000 [new_reminder])) =
     Some new_reminder"
    by simp
  have c: "reminder_car_id new_reminder = 1" by simp
  have o: "\<forall>opn \<in> set [Sweep day101 1, MarkSent (day101 + 1) 7]. marked_not_before day101 opn"
    by simp
  have w: "day101 - timedelta_days 30 \<le> day101"
    by (simp add: timedelta_days_def microseconds_per_day_def)
  have s0: "check_all_cars_for_reminders default_settings day101 ?d 1 = (?d, Inr [])"
    using w by (simp add: sweep_recent [where t = day101])
  have m: "?d = apply_operations default_settings
                 (mark_reminder_sent day101 (fleet_db 99000 [new_reminder]) 1)
                 [Sweep day101 1, MarkSent (day101 + 1) 7]"
    by (simp add: apply_operations_Cons apply_operations_Nil mark_fleet_db s0)
  have t: "(day101 + 86400000000) - timedelta_days 30 \<le> day101"
    by (simp add: timedelta_days_def microseconds_per_day_def)
  have s: "check_all_cars_for_reminders default_settings (day101 + 86400000000) ?d 1 = (?d, Inr [])"
    using t by (simp add: sweep_recent [where t = day101])
  have j: "check_service_reminders default_settings failing_sink (day101 + 86400000000) ?d =
             (?d, [], None)"
    by (simp add: check_service_reminders_def s)
  from sweep_skips_recently_notified [OF f c o m t s, where snk = failing_sink]
  show ?thesis using f o m t s j by simp
qed








text \<open>An unknown id, and the id of the second of two reminders.\<close>

theorem mark_reminder_sent_frame_witness:
  "mark_reminder_sent day101 (fleet_db 99000 [stale_reminder, reminder_of 2 1]) 7 =
     fleet_db 99000 [stale_reminder, reminder_of 2 1]
   \<and> mark_reminder_sent day101 (fleet_db 99000 [stale_reminder, reminder_of 2 1]) 2 =
     fleet_db 99000
       [stale_reminder, (reminder_of 2 1)\<lparr>reminder_sent := True, reminder_sent_at := Some day101\<rparr>]"
  using mark_reminder_sent_frame
      [where d = "fleet_db 99000 [stale_reminder, reminder_of 2 1]" and reminder_id = 7
         and now = day101]
    mark_reminder_sent_frame
      [where d = "fleet_db 99000 [stale_reminder, reminder_of 2 1]" and reminder_id = 2
         and now = day101 and pre = "[stale_reminder]" and r = "reminder_of 2 1" and post = "[]"]
  by (simp add: reminder_of_def)

subsection \<open>The job on the two shops\<close>

lemma two_shop_db_sel [simp]:
  "service_reminders (two_shop_db rs) = rs"
  "cars (two_shop_db rs) = [due_car 1 1, due_car 2 1, due_car 3 2]"
  "customers (two_shop_db rs) = [the_owner]"
  "(two_shop_db rs)\<lparr>service_reminders := rs'\<rparr> = two_shop_db rs'"
  "filter (\<lambda>s. is_active s \<and> sms_enabled s) (shops (two_shop_db rs)) =
     [the_shop, \<lparr>shop_ident = 2, is_active = True, sms_enabled = True\<rparr>]"
  by (simp_all add: two_shop_db_def)

lemma due_car_sel [simp]:
  "car_ident (due_car cid sid) = cid" "car_shop_id (due_car cid sid) = sid"
  "owner_id (due_car cid sid) = 1" "current_mileage (due_car cid sid) = 99000"
  "service_interval_km (due_car cid sid) = 10000"
  by (simp_all add: due_car_def)

lemma reminder_of_sel [simp]:
  "reminder_ident (reminder_of rid cid) = rid" "reminder_car_id (reminder_of rid cid) = cid"
  "\<not> reminder_sent (reminder_of rid cid)"
  by (simp_all add: reminder_of_def)

lemma item_of_sel [simp]:
  "item_car (item_of car rid) = car" "item_customer (item_of car rid) = Some the_owner"
  "item_reminder_id (item_of car rid) = rid"
  by (simp_all add: item_of_def)











end
